theory Spec2Isabelle
  imports Main "HOL-Library.Sublist"
begin

section \<open>JavaScript strings\<close>

text \<open>
  Utterances and message texts are values of type \<open>string\<close>: sequences of 8-bit code
  units. This covers the JavaScript strings whose UTF-16 code units are all below 256
  (ASCII and Latin-1); on them \<^verbatim>\<open>String.prototype.toLowerCase\<close> works unit by
  unit and \<^verbatim>\<open>String.prototype.trim\<close> strips the seven white space and line
  terminator units listed below.
\<close>

definition toLowerCaseUnit :: "char \<Rightarrow> char" where
  "toLowerCaseUnit c =
     (let n = (of_char c :: nat)
      in if (65 \<le> n \<and> n \<le> 90) \<or> (192 \<le> n \<and> n \<le> 222 \<and> n \<noteq> 215)
         then char_of (n + 32) else c)"

definition toLowerCase :: "string \<Rightarrow> string" where
  "toLowerCase s = map toLowerCaseUnit s"

text \<open>\<^verbatim>\<open>s.includes(k)\<close>: does \<open>k\<close> occur in \<open>s\<close> at some position?\<close>

fun startsWith :: "string \<Rightarrow> string \<Rightarrow> bool" where
  "startsWith s [] = True"
| "startsWith [] (k # ks) = False"
| "startsWith (c # cs) (k # ks) = (c = k \<and> startsWith cs ks)"

fun includesStr :: "string \<Rightarrow> string \<Rightarrow> bool" where
  "includesStr [] k = (k = [])"
| "includesStr (c # cs) k = (startsWith (c # cs) k \<or> includesStr cs k)"

text \<open>
  White space and line terminators of ECMAScript below 256: TAB, LF, VT, FF, CR, SPACE
  and NO-BREAK SPACE.
\<close>

definition isWhiteSpace :: "char \<Rightarrow> bool" where
  "isWhiteSpace c = ((of_char c :: nat) \<in> {9, 10, 11, 12, 13, 32, 160})"

definition trim :: "string \<Rightarrow> string" where
  "trim s = rev (dropWhile isWhiteSpace (rev (dropWhile isWhiteSpace s)))"

text \<open>
  \<^verbatim>\<open>Number.prototype.toString\<close> on an integer (plain decimal notation, which is
  what JavaScript prints for every integer of magnitude below \<open>10\<^sup>2\<^sup>1\<close>).
\<close>

fun digitsOf :: "nat \<Rightarrow> string" where
  "digitsOf n =
     (if n < 10 then [''0123456789'' ! n]
      else digitsOf (n div 10) @ [''0123456789'' ! (n mod 10)])"

declare digitsOf.simps [simp del]

definition numberToString :: "int \<Rightarrow> string" where
  "numberToString i =
     (if i < 0 then CHR ''-'' # digitsOf (nat (- i)) else digitsOf (nat i))"

section \<open>Chart payloads\<close>

text \<open>
  \<^verbatim>\<open>interface ChartData { type: "line" | "pie"; data: any[] }\<close>. The elements of
  \<open>data\<close> are object literals with a numeric \<open>value\<close> and, depending on the chart,
  a \<open>month\<close>, or a \<open>name\<close> and a \<open>recommended\<close> number; a property an object
  does not have is \<open>None\<close>.
\<close>

datatype ChartType = Line | Pie

record DataItem =
  month :: "string option"
  name :: "string option"
  val :: int
  recommended :: "int option"

record ChartData =
  ctype :: ChartType
  data :: "DataItem list"

definition linePoint :: "string \<Rightarrow> int \<Rightarrow> DataItem" where
  "linePoint m v = \<lparr>month = Some m, name = None, val = v, recommended = None\<rparr>"

definition pieSlice :: "string \<Rightarrow> int \<Rightarrow> int \<Rightarrow> DataItem" where
  "pieSlice n v r = \<lparr>month = None, name = Some n, val = v, recommended = Some r\<rparr>"

section \<open>The response classifier\<close>

text \<open>The four canned replies and the two chart payloads of \<^verbatim>\<open>simulateAIResponse\<close>.\<close>

definition performanceReply :: string where
  "performanceReply = ''Based on your current portfolio allocation, here's your performance over the last 12 months. Your balanced approach with 70% growth assets and 30% defensive assets has yielded a solid 8.2% return. Consider increasing your international equity exposure for better diversification.''"

definition allocationReply :: string where
  "allocationReply = ''Your current asset allocation shows room for improvement. Here's your breakdown and my recommended adjustments for better long-term growth while managing risk appropriately for your age profile.''"

definition retirementReply :: string where
  "retirementReply = ''Based on your retirement goal of $1.2M by age 65, you're currently on track but could accelerate your progress. With your current contribution rate and expected returns, you'll reach approximately $1.05M. I recommend increasing your contributions by $200/month to meet your target.''"

definition fallbackReply :: string where
  "fallbackReply = ''That's a great question! I can help you with portfolio optimization, retirement planning, investment explanations, and risk assessment. Feel free to ask about your superannuation performance, asset allocation, or any financial terms you'd like me to explain.''"

definition performanceChart :: ChartData where
  "performanceChart =
     \<lparr>ctype = Line,
      data =
        [linePoint ''Jan'' 95000,
         linePoint ''Feb'' 97200,
         linePoint ''Mar'' 96800,
         linePoint ''Apr'' 99100,
         linePoint ''May'' 101500,
         linePoint ''Jun'' 103200,
         linePoint ''Jul'' 105800,
         linePoint ''Aug'' 104200,
         linePoint ''Sep'' 107600,
         linePoint ''Oct'' 109200,
         linePoint ''Nov'' 112400,
         linePoint ''Dec'' 115800]\<rparr>"

definition allocationChart :: ChartData where
  "allocationChart =
     \<lparr>ctype = Pie,
      data =
        [pieSlice ''Australian Shares'' 35 40,
         pieSlice ''International Shares'' 25 30,
         pieSlice ''Property'' 15 10,
         pieSlice ''Bonds'' 20 15,
         pieSlice ''Cash'' 5 5]\<rparr>"

text \<open>
  The local variable \<open>chartData\<close> of the timer callback is \<^verbatim>\<open>null\<close> or a chart
  object; the optional property of a message may also be missing altogether.
\<close>

datatype ChartField = Undefined | Null | Chart ChartData

text \<open>
  The keyword cascade of the timer callback in \<^verbatim>\<open>simulateAIResponse\<close>: the
  values of \<open>response\<close>, \<open>hasChart\<close> and \<open>chartData\<close> once the
  \<^verbatim>\<open>if ... else if ... else\<close> chain is through.
\<close>

definition classifier :: "string \<Rightarrow> string \<times> bool \<times> ChartField" where
  "classifier userMessage =
     (if includesStr (toLowerCase userMessage) ''portfolio''
         \<or> includesStr (toLowerCase userMessage) ''performance''
      then (performanceReply, True, Chart performanceChart)
      else if includesStr (toLowerCase userMessage) ''allocation''
         \<or> includesStr (toLowerCase userMessage) ''diversif''
      then (allocationReply, True, Chart allocationChart)
      else if includesStr (toLowerCase userMessage) ''retirement''
         \<or> includesStr (toLowerCase userMessage) ''goal''
      then (retirementReply, False, Null)
      else (fallbackReply, False, Null))"

text \<open>
  The specification's wording of the match: a keyword occurs in an utterance
  case-insensitively when some contiguous part of the utterance equals the keyword up to
  letter case.
\<close>

definition containsIgnoringCase :: "string \<Rightarrow> string \<Rightarrow> bool" where
  "containsIgnoringCase u kw =
     (\<exists>pre v post. u = pre @ v @ post \<and> toLowerCase v = toLowerCase kw)"

section \<open>The recommendations section of the pie chart\<close>

text \<open>
  \<^verbatim>\<open>FinancialChart\<close> renders, under a pie chart, one row for every item whose
  \<open>recommended\<close> number is truthy and differs from its \<open>value\<close>; the other items
  render \<^verbatim>\<open>null\<close>. The whole section is present only when some item has a truthy
  \<open>recommended\<close>. A row records the local constant \<open>change\<close> besides what is
  rendered from it.
\<close>

definition truthy :: "int option \<Rightarrow> bool" where
  "truthy r = (case r of None \<Rightarrow> False | Some n \<Rightarrow> n \<noteq> 0)"

record AdjustmentRow =
  rowKey :: nat
  rowLabel :: string
  rowChange :: int
  rowClass :: string
  rowText :: string

definition adjustmentRow :: "DataItem \<Rightarrow> nat \<Rightarrow> AdjustmentRow option" where
  "adjustmentRow item index =
     (case recommended item of
        None \<Rightarrow> None
      | Some r \<Rightarrow>
          if r \<noteq> 0 \<and> val item \<noteq> r then
            (let change = r - val item
             in Some \<lparr>rowKey = index,
                      rowLabel = (case name item of None \<Rightarrow> [] | Some n \<Rightarrow> n) @ '':'',
                      rowChange = change,
                      rowClass = (if change > 0 then ''text-accent'' else ''text-destructive''),
                      rowText = (if change > 0 then ''+'' else []) @ numberToString change @ ''%''\<rparr>)
          else None)"

definition recommendations :: "DataItem list \<Rightarrow> AdjustmentRow option list option" where
  "recommendations items =
     (if list_ex (\<lambda>item. truthy (recommended item)) items
      then Some (map (\<lambda>(item, index). adjustmentRow item index) (zip items [0..<length items]))
      else None)"

text \<open>
  What \<^verbatim>\<open>FinancialChart\<close> renders, as far as it depends on the data: a line chart
  of the items, or a pie chart of the items with the recommendations section under it.
\<close>

datatype ChartView =
  LineChartView "DataItem list"
| PieChartView "DataItem list" "AdjustmentRow option list option"

definition FinancialChart :: "ChartData \<Rightarrow> ChartView" where
  "FinancialChart d =
     (case ctype d of
        Line \<Rightarrow> LineChartView (data d)
      | Pie \<Rightarrow> PieChartView (data d) (recommendations (data d)))"

section \<open>Messages and the conversation\<close>

text \<open>
  \<^verbatim>\<open>interface Message\<close>. The optional property \<open>hasChart\<close> is \<open>None\<close> on a
  message created without it. Dates are milliseconds since the epoch.
\<close>

record Message =
  msgId :: string
  content :: string
  isUser :: bool
  timestamp :: int
  hasChart :: "bool option"
  chartData :: ChartField

definition greeting :: string where
  "greeting = ''Hello! I'm your AI superannuation advisor. I can help you optimize your retirement investments, explain financial terms, and provide personalized recommendations based on your goals. What would you like to know today?''"

text \<open>\<open>loadTime\<close> is the reading of \<^verbatim>\<open>Date.now()\<close> when the module is loaded.\<close>

definition initialMessages :: "int \<Rightarrow> Message list" where
  "initialMessages loadTime =
     [\<lparr>msgId = ''1'', content = greeting, isUser = False, timestamp = loadTime - 5000,
       hasChart = None, chartData = Undefined\<rparr>]"

text \<open>
  The state of the \<^verbatim>\<open>FinancialChat\<close> component: its three \<^verbatim>\<open>useState\<close>
  cells and the timers that \<^verbatim>\<open>setTimeout\<close> has started and that have not fired
  yet. A timer is represented by the \<open>userMessage\<close> its callback has captured. All
  timers run for the same 1500 ms, so they fire in the order in which they were started.
\<close>

record ChatState =
  messages :: "Message list"
  inputValue :: string
  isTyping :: bool
  timers :: "string list"

definition initialState :: "int \<Rightarrow> ChatState" where
  "initialState loadTime =
     \<lparr>messages = initialMessages loadTime, inputValue = [], isTyping = False, timers = []\<rparr>"

text \<open>
  The callback given to \<^verbatim>\<open>setTimeout\<close>, run when the timer fires. \<open>nowId\<close> and
  \<open>nowTs\<close> are the two clock readings it takes (\<^verbatim>\<open>Date.now()\<close> for the
  identifier, \<^verbatim>\<open>new Date()\<close> for the time stamp).
\<close>

definition timeoutCallback :: "string \<Rightarrow> int \<Rightarrow> int \<Rightarrow> ChatState \<Rightarrow> ChatState" where
  "timeoutCallback userMessage nowId nowTs s =
     (case classifier userMessage of
        (response, hasChart', chartData') \<Rightarrow>
          (let aiMessage =
                 \<lparr>msgId = numberToString nowId, content = response, isUser = False,
                  timestamp = nowTs, hasChart = Some hasChart', chartData = chartData'\<rparr>
           in s\<lparr>messages := messages s @ [aiMessage], isTyping := False\<rparr>))"

definition simulateAIResponse :: "string \<Rightarrow> ChatState \<Rightarrow> ChatState" where
  "simulateAIResponse userMessage s =
     s\<lparr>isTyping := True, timers := timers s @ [userMessage]\<rparr>"

definition handleSendMessage :: "int \<Rightarrow> int \<Rightarrow> ChatState \<Rightarrow> ChatState" where
  "handleSendMessage nowId nowTs s =
     (if trim (inputValue s) = [] then s
      else
        (let userMessage =
               \<lparr>msgId = numberToString nowId, content = inputValue s, isUser = True,
                timestamp = nowTs, hasChart = None, chartData = Undefined\<rparr>;
             s1 = s\<lparr>messages := messages s @ [userMessage]\<rparr>;
             s2 = simulateAIResponse (inputValue s) s1
         in s2\<lparr>inputValue := []\<rparr>))"

definition handleKeyPress :: "string \<Rightarrow> bool \<Rightarrow> int \<Rightarrow> int \<Rightarrow> ChatState \<Rightarrow> ChatState" where
  "handleKeyPress key shiftKey nowId nowTs s =
     (if key = ''Enter'' \<and> \<not> shiftKey then handleSendMessage nowId nowTs s else s)"

text \<open>
  What can happen to the component: the input field or a quick-action button sets
  \<open>inputValue\<close>; the send button is clicked; a key is pressed in the input field; the
  oldest pending timer fires. Each event carries the clock readings its handler takes.
\<close>

datatype Event =
  SetInputValue string
| ClickSend int int
| KeyPress string bool int int
| TimerFires int int

fun step :: "ChatState \<Rightarrow> Event \<Rightarrow> ChatState" where
  "step s (SetInputValue v) = s\<lparr>inputValue := v\<rparr>"
| "step s (ClickSend nowId nowTs) = handleSendMessage nowId nowTs s"
| "step s (KeyPress key shiftKey nowId nowTs) = handleKeyPress key shiftKey nowId nowTs s"
| "step s (TimerFires nowId nowTs) =
     (case timers s of
        [] \<Rightarrow> s
      | userMessage # rest \<Rightarrow> timeoutCallback userMessage nowId nowTs (s\<lparr>timers := rest\<rparr>))"

definition run :: "ChatState \<Rightarrow> Event list \<Rightarrow> ChatState" where
  "run s es = foldl step s es"

text \<open>
  Does the event reach the body of \<^verbatim>\<open>handleSendMessage\<close> past its guard, that
  is, is it a non-empty submission?
\<close>

fun submits :: "ChatState \<Rightarrow> Event \<Rightarrow> bool" where
  "submits s (SetInputValue v) = False"
| "submits s (ClickSend nowId nowTs) = (trim (inputValue s) \<noteq> [])"
| "submits s (KeyPress key shiftKey nowId nowTs) =
     (key = ''Enter'' \<and> \<not> shiftKey \<and> trim (inputValue s) \<noteq> [])"
| "submits s (TimerFires nowId nowTs) = False"

text \<open>The texts of the non-empty submissions made along a sequence of events, in order.\<close>

fun submissions :: "ChatState \<Rightarrow> Event list \<Rightarrow> string list" where
  "submissions s [] = []"
| "submissions s (e # es) =
     (if submits s e then [inputValue s] else []) @ submissions (step s e) es"

text \<open>
  A sequence of events is serial when every non-empty submission is made while no
  response is pending.
\<close>

fun serial :: "ChatState \<Rightarrow> Event list \<Rightarrow> bool" where
  "serial s [] = True"
| "serial s (e # es) = ((submits s e \<longrightarrow> timers s = []) \<and> serial (step s e) es)"

text \<open>
  A message without its identifier and time stamp: who wrote it, its text and its two
  chart properties; and what this is for the user message of a submission and for the
  assistant's reply to it.
\<close>

definition shown :: "Message \<Rightarrow> bool \<times> string \<times> bool option \<times> ChartField" where
  "shown m = (isUser m, content m, hasChart m, chartData m)"

definition userEntry :: "string \<Rightarrow> bool \<times> string \<times> bool option \<times> ChartField" where
  "userEntry u = (True, u, None, Undefined)"

definition replyEntry :: "string \<Rightarrow> bool \<times> string \<times> bool option \<times> ChartField" where
  "replyEntry u =
     (False, fst (classifier u), Some (fst (snd (classifier u))), snd (snd (classifier u)))"

section \<open>Facts about the string operations\<close>

lemma startsWith_iff: "startsWith s k \<longleftrightarrow> (\<exists>post. s = k @ post)"
  by (induction s k rule: startsWith.induct) auto

lemma includesStr_iff: "includesStr s k \<longleftrightarrow> (\<exists>pre post. s = pre @ k @ post)"
proof (induction s)
  case Nil
  then show ?case by auto
next
  case (Cons c cs)
  show ?case
  proof
    assume "includesStr (c # cs) k"
    then consider "startsWith (c # cs) k" | "includesStr cs k" by auto
    then show "\<exists>pre post. c # cs = pre @ k @ post"
    proof cases
      case 1
      then obtain post where "c # cs = k @ post" by (auto simp: startsWith_iff)
      then have "c # cs = [] @ k @ post" by simp
      then show ?thesis by blast
    next
      case 2
      then obtain pre post where "cs = pre @ k @ post" using Cons.IH by blast
      then have "c # cs = (c # pre) @ k @ post" by simp
      then show ?thesis by blast
    qed
  next
    assume "\<exists>pre post. c # cs = pre @ k @ post"
    then obtain pre post where eq: "c # cs = pre @ k @ post" by blast
    show "includesStr (c # cs) k"
    proof (cases pre)
      case Nil
      with eq have "startsWith (c # cs) k" by (auto simp: startsWith_iff)
      then show ?thesis by simp
    next
      case (Cons p ps)
      with eq have "cs = ps @ k @ post" by simp
      then have "includesStr cs k" using Cons.IH by blast
      then show ?thesis by simp
    qed
  qed
qed

lemma toLowerCaseUnit_idem: "toLowerCaseUnit (toLowerCaseUnit c) = toLowerCaseUnit c"
  unfolding toLowerCaseUnit_def Let_def by auto

lemma toLowerCase_idem: "toLowerCase (toLowerCase s) = toLowerCase s"
  by (simp add: toLowerCase_def toLowerCaseUnit_idem)

lemma toLowerCase_append: "toLowerCase (a @ b) = toLowerCase a @ toLowerCase b"
  by (simp add: toLowerCase_def)

lemma map_eq_append_split:
  "map f xs = ys @ zs \<Longrightarrow> \<exists>us vs. xs = us @ vs \<and> map f us = ys \<and> map f vs = zs"
  by (auto simp: map_eq_append_conv)

lemma includesStr_toLowerCase:
  "includesStr (toLowerCase u) (toLowerCase kw) \<longleftrightarrow> containsIgnoringCase u kw"
proof
  assume "includesStr (toLowerCase u) (toLowerCase kw)"
  then obtain pre post where "map toLowerCaseUnit u = pre @ map toLowerCaseUnit kw @ post"
    by (auto simp: includesStr_iff toLowerCase_def)
  then obtain a r where u: "u = a @ r"
    and r: "map toLowerCaseUnit r = map toLowerCaseUnit kw @ post"
    by (blast dest: map_eq_append_split)
  from r obtain v b where "r = v @ b" and "map toLowerCaseUnit v = map toLowerCaseUnit kw"
    by (blast dest: map_eq_append_split)
  with u show "containsIgnoringCase u kw"
    unfolding containsIgnoringCase_def toLowerCase_def by blast
next
  assume "containsIgnoringCase u kw"
  then obtain pre v post where "u = pre @ v @ post" and "toLowerCase v = toLowerCase kw"
    unfolding containsIgnoringCase_def by blast
  then have "toLowerCase u = toLowerCase pre @ toLowerCase kw @ toLowerCase post"
    by (simp add: toLowerCase_append)
  then show "includesStr (toLowerCase u) (toLowerCase kw)"
    unfolding includesStr_iff by blast
qed

lemma keywords_lower:
  "toLowerCase ''portfolio'' = ''portfolio''"
  "toLowerCase ''performance'' = ''performance''"
  "toLowerCase ''allocation'' = ''allocation''"
  "toLowerCase ''diversif'' = ''diversif''"
  "toLowerCase ''retirement'' = ''retirement''"
  "toLowerCase ''goal'' = ''goal''"
  by (simp_all add: toLowerCase_def toLowerCaseUnit_def)

lemma includesStr_keyword:
  "includesStr (toLowerCase u) ''portfolio'' \<longleftrightarrow> containsIgnoringCase u ''portfolio''"
  "includesStr (toLowerCase u) ''performance'' \<longleftrightarrow> containsIgnoringCase u ''performance''"
  "includesStr (toLowerCase u) ''allocation'' \<longleftrightarrow> containsIgnoringCase u ''allocation''"
  "includesStr (toLowerCase u) ''diversif'' \<longleftrightarrow> containsIgnoringCase u ''diversif''"
  "includesStr (toLowerCase u) ''retirement'' \<longleftrightarrow> containsIgnoringCase u ''retirement''"
  "includesStr (toLowerCase u) ''goal'' \<longleftrightarrow> containsIgnoringCase u ''goal''"
  using includesStr_toLowerCase [of u "''portfolio''"] includesStr_toLowerCase [of u "''performance''"]
    includesStr_toLowerCase [of u "''allocation''"] includesStr_toLowerCase [of u "''diversif''"]
    includesStr_toLowerCase [of u "''retirement''"] includesStr_toLowerCase [of u "''goal''"]
  by (simp_all only: keywords_lower)

section \<open>The classifier\<close>

lemma chart_types: "ctype performanceChart = Line" "ctype allocationChart = Pie"
  by (simp_all add: performanceChart_def allocationChart_def)

lemma lower_eval: "toLowerCase [] = []" "toLowerCase (c # cs) = toLowerCaseUnit c # toLowerCase cs"
  by (simp_all add: toLowerCase_def)

lemma replies_distinct:
  "distinct [performanceReply, allocationReply, retirementReply, fallbackReply]"
  by (simp add: performanceReply_def allocationReply_def retirementReply_def fallbackReply_def)

text \<open>
  Claim C1. For every utterance the classifier picks its response by case-insensitive
  substring match against the keyword groups in order, the first matching group winning:
  "portfolio" or "performance" gives the performance reply with the line chart; otherwise
  "allocation" or "diversif" gives the allocation reply with the pie chart; otherwise
  "retirement" or "goal" gives the retirement reply without a chart; otherwise the
  fallback reply without a chart. As \<open>classifier\<close> is a function, the choice is
  deterministic.
\<close>

theorem classifier_first_match:
  "classifier u =
     (if containsIgnoringCase u ''portfolio'' \<or> containsIgnoringCase u ''performance''
      then (performanceReply, True, Chart performanceChart)
      else if containsIgnoringCase u ''allocation'' \<or> containsIgnoringCase u ''diversif''
      then (allocationReply, True, Chart allocationChart)
      else if containsIgnoringCase u ''retirement'' \<or> containsIgnoringCase u ''goal''
      then (retirementReply, False, Null)
      else (fallbackReply, False, Null))
   \<and> ctype performanceChart = Line \<and> ctype allocationChart = Pie"
  unfolding classifier_def includesStr_keyword by (simp add: chart_types)

text \<open>
  Claim C3, as stated, fails: the utterance "portfolio allocation" is non-empty and
  contains "allocation", but the first keyword group matches it too and wins, so the
  classifier answers with the performance reply and the line chart.
\<close>

theorem allocation_counterexample:
  "''portfolio allocation'' \<noteq> [] \<and> containsIgnoringCase ''portfolio allocation'' ''allocation''
   \<and> classifier ''portfolio allocation'' = (performanceReply, True, Chart performanceChart)
   \<and> classifier ''portfolio allocation'' \<noteq> (allocationReply, True, Chart allocationChart)"
proof -
  have a: "includesStr (toLowerCase ''portfolio allocation'') ''allocation''"
    by (simp add: lower_eval toLowerCaseUnit_def)
  have p: "includesStr (toLowerCase ''portfolio allocation'') ''portfolio''"
    by (simp add: lower_eval toLowerCaseUnit_def)
  have "performanceChart \<noteq> allocationChart"
    using chart_types by auto
  with a p show ?thesis
    by (simp add: classifier_def includesStr_keyword)
qed

text \<open>
  Claim C3, amended. For every non-empty utterance that contains "allocation" or
  "diversif" (case-insensitively) and contains neither "portfolio" nor "performance", the
  classifier returns the allocation reply with a pie payload of exactly 5 categories,
  with distinct names, whose values sum to 100.
\<close>

theorem allocation_reply:
  assumes "u \<noteq> []"
    and "containsIgnoringCase u ''allocation'' \<or> containsIgnoringCase u ''diversif''"
    and "\<not> containsIgnoringCase u ''portfolio''" and "\<not> containsIgnoringCase u ''performance''"
  shows "classifier u = (allocationReply, True, Chart allocationChart)
    \<and> ctype allocationChart = Pie
    \<and> length (data allocationChart) = 5
    \<and> distinct (map name (data allocationChart))
    \<and> sum_list (map val (data allocationChart)) = 100"
proof -
  have "classifier u = (allocationReply, True, Chart allocationChart)"
    using assms unfolding classifier_def includesStr_keyword by auto
  moreover have "length (data allocationChart) = 5" "sum_list (map val (data allocationChart)) = 100"
    "distinct (map name (data allocationChart))"
    by (simp_all add: allocationChart_def pieSlice_def)
  ultimately show ?thesis by (simp add: chart_types)
qed

theorem allocation_reply_witness:
  "''Review my asset allocation'' \<noteq> []
   \<and> (containsIgnoringCase ''Review my asset allocation'' ''allocation''
      \<or> containsIgnoringCase ''Review my asset allocation'' ''diversif'')
   \<and> \<not> containsIgnoringCase ''Review my asset allocation'' ''portfolio''
   \<and> \<not> containsIgnoringCase ''Review my asset allocation'' ''performance''
   \<and> classifier ''Review my asset allocation'' = (allocationReply, True, Chart allocationChart)
   \<and> ctype allocationChart = Pie
   \<and> length (data allocationChart) = 5
   \<and> distinct (map name (data allocationChart))
   \<and> sum_list (map val (data allocationChart)) = 100"
proof -
  have h: "includesStr (toLowerCase ''Review my asset allocation'') ''allocation''"
    "\<not> includesStr (toLowerCase ''Review my asset allocation'') ''portfolio''"
    "\<not> includesStr (toLowerCase ''Review my asset allocation'') ''performance''"
    by (simp_all add: lower_eval toLowerCaseUnit_def)
  then have c: "containsIgnoringCase ''Review my asset allocation'' ''allocation''
      \<or> containsIgnoringCase ''Review my asset allocation'' ''diversif''"
    "\<not> containsIgnoringCase ''Review my asset allocation'' ''portfolio''"
    "\<not> containsIgnoringCase ''Review my asset allocation'' ''performance''"
    by (simp_all add: includesStr_keyword)
  have n: "''Review my asset allocation'' \<noteq> []" by simp
  from allocation_reply [OF n c] n c show ?thesis by blast
qed

text \<open>
  Claim C4. For every non-empty utterance containing "portfolio" or "performance"
  (case-insensitively) the classifier returns the performance reply with a line payload
  of exactly 12 points, each a month label with a value, in calendar order.
\<close>

theorem performance_reply:
  assumes "u \<noteq> []"
    and "containsIgnoringCase u ''portfolio'' \<or> containsIgnoringCase u ''performance''"
  shows "classifier u = (performanceReply, True, Chart performanceChart)
    \<and> ctype performanceChart = Line
    \<and> length (data performanceChart) = 12
    \<and> map (\<lambda>p. (month p, val p)) (data performanceChart) =
        [(Some ''Jan'', 95000), (Some ''Feb'', 97200), (Some ''Mar'', 96800),
         (Some ''Apr'', 99100), (Some ''May'', 101500), (Some ''Jun'', 103200),
         (Some ''Jul'', 105800), (Some ''Aug'', 104200), (Some ''Sep'', 107600),
         (Some ''Oct'', 109200), (Some ''Nov'', 112400), (Some ''Dec'', 115800)]"
proof -
  have "classifier u = (performanceReply, True, Chart performanceChart)"
    using assms unfolding classifier_def includesStr_keyword by auto
  moreover have "length (data performanceChart) = 12"
    by (simp add: performanceChart_def)
  moreover have "map (\<lambda>p. (month p, val p)) (data performanceChart) =
        [(Some ''Jan'', 95000), (Some ''Feb'', 97200), (Some ''Mar'', 96800),
         (Some ''Apr'', 99100), (Some ''May'', 101500), (Some ''Jun'', 103200),
         (Some ''Jul'', 105800), (Some ''Aug'', 104200), (Some ''Sep'', 107600),
         (Some ''Oct'', 109200), (Some ''Nov'', 112400), (Some ''Dec'', 115800)]"
    by (simp add: performanceChart_def linePoint_def)
  ultimately show ?thesis by (simp add: chart_types)
qed

theorem performance_reply_witness:
  "''Show me my portfolio performance'' \<noteq> []
   \<and> (containsIgnoringCase ''Show me my portfolio performance'' ''portfolio''
      \<or> containsIgnoringCase ''Show me my portfolio performance'' ''performance'')
   \<and> classifier ''Show me my portfolio performance'' = (performanceReply, True, Chart performanceChart)
   \<and> length (data performanceChart) = 12"
proof -
  have "includesStr (toLowerCase ''Show me my portfolio performance'') ''portfolio''"
    by (simp add: lower_eval toLowerCaseUnit_def)
  then have c: "containsIgnoringCase ''Show me my portfolio performance'' ''portfolio''
      \<or> containsIgnoringCase ''Show me my portfolio performance'' ''performance''"
    by (simp add: includesStr_keyword)
  have n: "''Show me my portfolio performance'' \<noteq> []" by simp
  from performance_reply [OF n c] n c show ?thesis by blast
qed

text \<open>
  Claim C7. Keyword matching is case-insensitive: the classifier returns the same reply
  and the same chart payload for an utterance and for its lower-cased form.
\<close>

theorem classifier_case_insensitive: "classifier (toLowerCase u) = classifier u"
  by (simp add: classifier_def toLowerCase_idem)

text \<open>
  Claim C8. The classifier is total: \<open>classifier\<close> has no error result, and for every
  utterance it returns one of the four canned responses, which are pairwise different;
  the empty utterance, and every utterance that no keyword group matches, gets the
  fallback reply.
\<close>

theorem classifier_total:
  "classifier u \<in> {(performanceReply, True, Chart performanceChart),
                    (allocationReply, True, Chart allocationChart),
                    (retirementReply, False, Null),
                    (fallbackReply, False, Null)}
   \<and> distinct [performanceReply, allocationReply, retirementReply, fallbackReply]
   \<and> classifier [] = (fallbackReply, False, Null)
   \<and> (\<not> containsIgnoringCase u ''portfolio'' \<and> \<not> containsIgnoringCase u ''performance''
      \<and> \<not> containsIgnoringCase u ''allocation'' \<and> \<not> containsIgnoringCase u ''diversif''
      \<and> \<not> containsIgnoringCase u ''retirement'' \<and> \<not> containsIgnoringCase u ''goal''
      \<longrightarrow> classifier u = (fallbackReply, False, Null))"
proof -
  have "classifier [] = (fallbackReply, False, Null)"
    by (simp add: classifier_def lower_eval)
  moreover have "classifier u \<in> {(performanceReply, True, Chart performanceChart),
                    (allocationReply, True, Chart allocationChart),
                    (retirementReply, False, Null),
                    (fallbackReply, False, Null)}"
    by (simp add: classifier_def)
  moreover have "\<not> containsIgnoringCase u ''portfolio'' \<and> \<not> containsIgnoringCase u ''performance''
      \<and> \<not> containsIgnoringCase u ''allocation'' \<and> \<not> containsIgnoringCase u ''diversif''
      \<and> \<not> containsIgnoringCase u ''retirement'' \<and> \<not> containsIgnoringCase u ''goal''
      \<longrightarrow> classifier u = (fallbackReply, False, Null)"
    unfolding classifier_def includesStr_keyword by simp
  ultimately show ?thesis using replies_distinct by blast
qed

theorem classifier_total_witness:
  "\<not> containsIgnoringCase ''asdf123'' ''portfolio'' \<and> \<not> containsIgnoringCase ''asdf123'' ''performance''
   \<and> \<not> containsIgnoringCase ''asdf123'' ''allocation'' \<and> \<not> containsIgnoringCase ''asdf123'' ''diversif''
   \<and> \<not> containsIgnoringCase ''asdf123'' ''retirement'' \<and> \<not> containsIgnoringCase ''asdf123'' ''goal''
   \<and> classifier ''asdf123'' = (fallbackReply, False, Null)"
proof -
  have "\<not> includesStr (toLowerCase ''asdf123'') ''portfolio''"
    "\<not> includesStr (toLowerCase ''asdf123'') ''performance''"
    "\<not> includesStr (toLowerCase ''asdf123'') ''allocation''"
    "\<not> includesStr (toLowerCase ''asdf123'') ''diversif''"
    "\<not> includesStr (toLowerCase ''asdf123'') ''retirement''"
    "\<not> includesStr (toLowerCase ''asdf123'') ''goal''"
    by (simp_all add: lower_eval toLowerCaseUnit_def)
  then have c: "\<not> containsIgnoringCase ''asdf123'' ''portfolio'' \<and> \<not> containsIgnoringCase ''asdf123'' ''performance''
   \<and> \<not> containsIgnoringCase ''asdf123'' ''allocation'' \<and> \<not> containsIgnoringCase ''asdf123'' ''diversif''
   \<and> \<not> containsIgnoringCase ''asdf123'' ''retirement'' \<and> \<not> containsIgnoringCase ''asdf123'' ''goal''"
    by (simp add: includesStr_keyword)
  with classifier_total [of "''asdf123''"] show ?thesis by blast
qed

text \<open>
  Claim C10. In the allocation pie payload the recommended values 40, 30, 10, 15 and 5
  sum to 100, as the current values do; the recommendations section of the chart is
  rendered, and the differences it shows (+5, +5, -5, -5, none for the unchanged "Cash")
  sum to 0.
\<close>

theorem allocation_recommended_total:
  "sum_list (map val (data allocationChart)) = 100
   \<and> map recommended (data allocationChart) = [Some 40, Some 30, Some 10, Some 15, Some 5]
   \<and> (\<Sum>i\<leftarrow>data allocationChart. case recommended i of None \<Rightarrow> 0 | Some r \<Rightarrow> r) = 100
   \<and> (case FinancialChart allocationChart of
        LineChartView items \<Rightarrow> False
      | PieChartView items None \<Rightarrow> False
      | PieChartView items (Some rows) \<Rightarrow>
          map (map_option rowChange) rows = [Some 5, Some 5, Some (- 5), Some (- 5), None]
          \<and> map (map_option rowText) rows = [Some ''+5%'', Some ''+5%'', Some ''-5%'', Some ''-5%'', None]
          \<and> (\<Sum>row\<leftarrow>rows. case row of None \<Rightarrow> 0 | Some r \<Rightarrow> rowChange r) = 0)"
  by (simp add: FinancialChart_def allocationChart_def pieSlice_def recommendations_def
      adjustmentRow_def truthy_def
      upt_rec numberToString_def digitsOf.simps)

section \<open>The conversation\<close>

lemma trim_empty_iff: "trim s = [] \<longleftrightarrow> (\<forall>c\<in>set s. isWhiteSpace c)"
proof
  assume "trim s = []"
  then have all: "\<forall>c\<in>set (dropWhile isWhiteSpace s). isWhiteSpace c"
    by (simp add: trim_def)
  have "dropWhile isWhiteSpace s = []"
  proof (rule ccontr)
    assume ne: "dropWhile isWhiteSpace s \<noteq> []"
    then have "\<not> isWhiteSpace (hd (dropWhile isWhiteSpace s))" by (rule hd_dropWhile)
    moreover from ne have "hd (dropWhile isWhiteSpace s) \<in> set (dropWhile isWhiteSpace s)" by simp
    ultimately show False using all by blast
  qed
  then show "\<forall>c\<in>set s. isWhiteSpace c" by simp
next
  assume "\<forall>c\<in>set s. isWhiteSpace c"
  then show "trim s = []" by (auto simp: trim_def dest: set_dropWhileD)
qed

lemma run_Nil: "run s [] = s"
  by (simp add: run_def)

lemma run_Cons: "run s (e # es) = run (step s e) es"
  by (simp add: run_def)

lemma handleSendMessage_reject: "trim (inputValue s) = [] \<Longrightarrow> handleSendMessage nowId nowTs s = s"
  by (simp add: handleSendMessage_def)

lemma handleSendMessage_accept:
  assumes "trim (inputValue s) \<noteq> []"
  shows "handleSendMessage nowId nowTs s =
     s\<lparr>messages := messages s @
          [\<lparr>msgId = numberToString nowId, content = inputValue s, isUser = True,
            timestamp = nowTs, hasChart = None, chartData = Undefined\<rparr>],
       inputValue := [],
       isTyping := True,
       timers := timers s @ [inputValue s]\<rparr>"
  using assms by (simp add: handleSendMessage_def simulateAIResponse_def Let_def)

lemma timeoutCallback_eq:
  "timeoutCallback u nowId nowTs s =
     s\<lparr>messages := messages s @
          [\<lparr>msgId = numberToString nowId, content = fst (classifier u), isUser = False,
            timestamp = nowTs, hasChart = Some (fst (snd (classifier u))),
            chartData = snd (snd (classifier u))\<rparr>],
       isTyping := False\<rparr>"
  by (simp add: timeoutCallback_def Let_def split: prod.splits)

text \<open>What one event does to the message list and to the pending timers.\<close>

lemma step_cases:
  obtains (submit) m where "submits s e" "messages (step s e) = messages s @ [m]"
      "isUser m" "shown m = userEntry (inputValue s)" "timers (step s e) = timers s @ [inputValue s]"
  | (reply) m u rest where "\<not> submits s e" "timers s = u # rest"
      "messages (step s e) = messages s @ [m]" "\<not> isUser m" "shown m = replyEntry u"
      "timers (step s e) = rest"
  | (idle) "\<not> submits s e" "messages (step s e) = messages s" "timers (step s e) = timers s"
proof (cases e)
  case (SetInputValue v)
  then show ?thesis using idle by simp
next
  case (ClickSend nowId nowTs)
  show ?thesis
  proof (cases "trim (inputValue s) = []")
    case True
    with ClickSend show ?thesis using idle by (simp add: handleSendMessage_reject)
  next
    case False
    with ClickSend show ?thesis
      using submit [of "\<lparr>msgId = numberToString nowId, content = inputValue s, isUser = True,
            timestamp = nowTs, hasChart = None, chartData = Undefined\<rparr>"]
      by (simp add: handleSendMessage_accept shown_def userEntry_def)
  qed
next
  case (KeyPress key shiftKey nowId nowTs)
  show ?thesis
  proof (cases "key = ''Enter'' \<and> \<not> shiftKey \<and> trim (inputValue s) \<noteq> []")
    case True
    with KeyPress show ?thesis
      using submit [of "\<lparr>msgId = numberToString nowId, content = inputValue s, isUser = True,
            timestamp = nowTs, hasChart = None, chartData = Undefined\<rparr>"]
      by (simp add: handleKeyPress_def handleSendMessage_accept shown_def userEntry_def)
  next
    case False
    with KeyPress show ?thesis using idle
      by (auto simp: handleKeyPress_def handleSendMessage_reject)
  qed
next
  case (TimerFires nowId nowTs)
  show ?thesis
  proof (cases "timers s")
    case Nil
    with TimerFires show ?thesis using idle by simp
  next
    case (Cons u rest)
    with TimerFires show ?thesis
      using reply [of u rest "\<lparr>msgId = numberToString nowId, content = fst (classifier u), isUser = False,
            timestamp = nowTs, hasChart = Some (fst (snd (classifier u))),
            chartData = snd (snd (classifier u))\<rparr>"]
      by (simp add: timeoutCallback_eq shown_def replyEntry_def)
  qed
qed

lemma run_messages_prefix: "prefix (messages s) (messages (run s es))"
proof (induction es arbitrary: s)
  case Nil
  show ?case by (simp add: run_Nil)
next
  case (Cons e es)
  have "prefix (messages s) (messages (step s e))"
    by (rule step_cases [of s e]) simp_all
  then show ?case
    using Cons.IH [of "step s e"] by (auto simp: run_Cons intro: prefix_order.trans)
qed

lemma run_users:
  "map shown (filter isUser (messages (run s es))) =
     map shown (filter isUser (messages s)) @ map userEntry (submissions s es)"
proof (induction es arbitrary: s)
  case Nil
  show ?case by (simp add: run_Nil)
next
  case (Cons e es)
  show ?case
    by (rule step_cases [of s e]) (simp_all add: run_Cons Cons.IH)
qed

lemma run_replies:
  "map shown (filter (\<lambda>m. \<not> isUser m) (messages (run s es))) @ map replyEntry (timers (run s es)) =
     map shown (filter (\<lambda>m. \<not> isUser m) (messages s)) @ map replyEntry (timers s)
       @ map replyEntry (submissions s es)"
proof (induction es arbitrary: s)
  case Nil
  show ?case by (simp add: run_Nil)
next
  case (Cons e es)
  show ?case
    by (rule step_cases [of s e]) (simp_all add: run_Cons Cons.IH)
qed

lemma run_length:
  "length (messages (run s es)) + length (timers (run s es)) =
     length (messages s) + length (timers s) + 2 * length (submissions s es)"
proof (induction es arbitrary: s)
  case Nil
  show ?case by (simp add: run_Nil)
next
  case (Cons e es)
  show ?case
    by (rule step_cases [of s e]) (simp_all add: run_Cons Cons.IH)
qed

lemma run_serial:
  "serial s es \<Longrightarrow>
   map shown (messages (run s es)) @ map replyEntry (timers (run s es)) =
     map shown (messages s) @ map replyEntry (timers s)
       @ concat (map (\<lambda>u. [userEntry u, replyEntry u]) (submissions s es))"
proof (induction es arbitrary: s)
  case Nil
  show ?case by (simp add: run_Nil)
next
  case (Cons e es)
  then have ser: "serial (step s e) es" and sub: "submits s e \<longrightarrow> timers s = []" by simp_all
  show ?case
    by (rule step_cases [of s e]) (use sub in \<open>simp_all add: run_Cons Cons.IH [OF ser]\<close>)
qed

lemma run_balanced:
  assumes "messages s \<noteq> []"
    and "\<forall>n. length (filter (\<lambda>m. \<not> isUser m) (take n (tl (messages s))))
          \<le> length (filter isUser (take n (tl (messages s))))"
    and "length (filter (\<lambda>m. \<not> isUser m) (tl (messages s))) + length (timers s)
          = length (filter isUser (tl (messages s)))"
  shows "\<forall>n. length (filter (\<lambda>m. \<not> isUser m) (take n (tl (messages (run s es)))))
          \<le> length (filter isUser (take n (tl (messages (run s es)))))"
  using assms
proof (induction es arbitrary: s)
  case Nil
  then show ?case by (simp add: run_Nil)
next
  case (Cons e es)
  let ?s' = "step s e"
  have ne: "messages ?s' \<noteq> []"
    by (rule step_cases [of s e]) (use Cons.prems(1) in simp_all)
  have pre: "\<forall>n. length (filter (\<lambda>m. \<not> isUser m) (take n (tl (messages ?s'))))
          \<le> length (filter isUser (take n (tl (messages ?s'))))"
  proof
    fix n
    from Cons.prems(2) have old: "length (filter (\<lambda>m. \<not> isUser m) (take n (tl (messages s))))
          \<le> length (filter isUser (take n (tl (messages s))))" by blast
    show "length (filter (\<lambda>m. \<not> isUser m) (take n (tl (messages ?s'))))
          \<le> length (filter isUser (take n (tl (messages ?s'))))"
    proof (rule step_cases [of s e])
      fix m
      assume "messages ?s' = messages s @ [m]" "isUser m"
      then show ?thesis using old Cons.prems(1) by (cases "n \<le> length (tl (messages s))") simp_all
    next
      fix m u rest
      assume a: "timers s = u # rest" "messages ?s' = messages s @ [m]" "\<not> isUser m"
      show ?thesis
      proof (cases "n \<le> length (tl (messages s))")
        case True
        with a Cons.prems(1) old show ?thesis by simp
      next
        case False
        with a Cons.prems(1) Cons.prems(3) show ?thesis by simp
      qed
    next
      assume "messages ?s' = messages s"
      then show ?thesis using old by simp
    qed
  qed
  have tot: "length (filter (\<lambda>m. \<not> isUser m) (tl (messages ?s'))) + length (timers ?s')
          = length (filter isUser (tl (messages ?s')))"
    by (rule step_cases [of s e]) (use Cons.prems(1) Cons.prems(3) in simp_all)
  show ?case
    using Cons.IH [OF ne pre tot] by (simp add: run_Cons)
qed

lemma whitespace_eval:
  "isWhiteSpace (CHR '' '')" "isWhiteSpace (CHR 0x09)" "isWhiteSpace (CHR 0x0A)"
  "isWhiteSpace (CHR 0xA0)"
  "\<not> isWhiteSpace (CHR ''g'')" "\<not> isWhiteSpace (CHR ''l'')" "\<not> isWhiteSpace (CHR ''a'')"
  "\<not> isWhiteSpace (CHR ''b'')" "\<not> isWhiteSpace (CHR ''?'')"
  by (simp_all add: isWhiteSpace_def)

lemma trim_eval: "trim ''  goal  '' = ''goal''"
  by (simp add: trim_def whitespace_eval)

lemma ab_nonblank: "trim ''a'' \<noteq> []" "trim ''b'' \<noteq> []"
  by (simp_all add: trim_def whitespace_eval)

lemma trim_examples:
  "trim ''Am I on track for retirement?'' \<noteq> []" "trim ''asdf123'' \<noteq> []" "trim ''   '' = []"
  by (simp_all add: trim_def isWhiteSpace_def)

text \<open>
  Claim C5. When the input is empty or consists of white space only, submitting it (by
  the send button or by the Enter key) is a no-op: the component's state is returned as
  it was, so no message is appended, every existing message stays, and no timer for a
  classifier response is started. The handler has no error result.
\<close>

theorem blank_submission_noop:
  assumes "\<forall>c\<in>set (inputValue s). isWhiteSpace c"
  shows "handleSendMessage nowId nowTs s = s
    \<and> handleKeyPress key shiftKey nowId nowTs s = s
    \<and> messages (handleSendMessage nowId nowTs s) = messages s
    \<and> timers (handleSendMessage nowId nowTs s) = timers s"
  using assms by (simp add: handleKeyPress_def handleSendMessage_reject trim_empty_iff)

theorem blank_submission_noop_witness:
  "list_all isWhiteSpace (inputValue ((initialState 0)\<lparr>inputValue := [CHR '' '', CHR 0x09, CHR 0xA0]\<rparr>))
   \<and> handleSendMessage 1000 1000 ((initialState 0)\<lparr>inputValue := [CHR '' '', CHR 0x09, CHR 0xA0]\<rparr>)
       = (initialState 0)\<lparr>inputValue := [CHR '' '', CHR 0x09, CHR 0xA0]\<rparr>
   \<and> handleSendMessage 1000 1000 ((initialState 0)\<lparr>inputValue := []\<rparr>)
       = (initialState 0)\<lparr>inputValue := []\<rparr>"
proof -
  have h: "\<forall>c\<in>set (inputValue ((initialState 0)\<lparr>inputValue := [CHR '' '', CHR 0x09, CHR 0xA0]\<rparr>)). isWhiteSpace c"
    by (simp add: whitespace_eval)
  have e: "\<forall>c\<in>set (inputValue ((initialState 0)\<lparr>inputValue := []\<rparr>)). isWhiteSpace c"
    by simp
  from blank_submission_noop [OF h, of 1000 1000] blank_submission_noop [OF e, of 1000 1000]
  show ?thesis by (simp add: whitespace_eval)
qed

text \<open>
  Claim C9. When the trimmed input is non-empty, submitting appends one user message
  whose content is the raw input, leading and trailing white space included; the same
  raw string is what the scheduled classifier call receives. Trimming serves the
  emptiness check only.
\<close>

theorem submission_verbatim:
  assumes "trim (inputValue s) \<noteq> []"
  shows "messages (handleSendMessage nowId nowTs s) =
      messages s @
        [\<lparr>msgId = numberToString nowId, content = inputValue s, isUser = True,
          timestamp = nowTs, hasChart = None, chartData = Undefined\<rparr>]
    \<and> timers (handleSendMessage nowId nowTs s) = timers s @ [inputValue s]"
  using assms by (simp add: handleSendMessage_accept)

theorem submission_verbatim_witness:
  "trim (inputValue ((initialState 0)\<lparr>inputValue := ''  goal  ''\<rparr>)) = ''goal''
   \<and> map content (messages (handleSendMessage 1000 1000 ((initialState 0)\<lparr>inputValue := ''  goal  ''\<rparr>)))
       = [greeting, ''  goal  '']"
proof -
  have h: "trim (inputValue ((initialState 0)\<lparr>inputValue := ''  goal  ''\<rparr>)) \<noteq> []"
    by (simp add: trim_eval)
  from submission_verbatim [OF h, of 1000 1000] show ?thesis
    by (simp add: trim_eval initialState_def initialMessages_def)
qed

text \<open>
  Claim C6. Every operation on the conversation only appends at the end of the message
  list: the list before \<^verbatim>\<open>handleSendMessage\<close>, before the timer callback, before
  any single event and before any sequence of events is a prefix of the list after it,
  so the message at every earlier index is unchanged and the order of insertion is kept.
\<close>

theorem messages_append_only:
  "prefix (messages s) (messages (handleSendMessage nowId nowTs s))
   \<and> prefix (messages s) (messages (timeoutCallback userMessage nowId nowTs s))
   \<and> prefix (messages s) (messages (step s e))
   \<and> prefix (messages s) (messages (run s es))
   \<and> (\<forall>i<length (messages s). messages (run s es) ! i = messages s ! i)"
proof -
  have 1: "prefix (messages s) (messages (handleSendMessage nowId nowTs s))"
    by (cases "trim (inputValue s) = []")
      (simp_all add: handleSendMessage_reject handleSendMessage_accept)
  have 2: "prefix (messages s) (messages (timeoutCallback userMessage nowId nowTs s))"
    by (simp add: timeoutCallback_eq)
  have 3: "prefix (messages s) (messages (step s e))"
    by (rule step_cases [of s e]) simp_all
  have 4: "prefix (messages s) (messages (run s es))"
    by (rule run_messages_prefix)
  then obtain new where "messages (run s es) = messages s @ new"
    by (auto simp: prefix_def)
  then have 5: "\<forall>i<length (messages s). messages (run s es) ! i = messages s ! i"
    by (simp add: nth_append)
  from 1 2 3 4 5 show ?thesis by blast
qed

theorem messages_append_only_witness:
  "(0::nat) < length (messages (initialState 0))
   \<and> messages (run (initialState 0) [SetInputValue ''goal'', ClickSend 1000 1000, TimerFires 2500 2500]) ! 0
       = messages (initialState 0) ! 0
   \<and> length (messages (run (initialState 0) [SetInputValue ''goal'', ClickSend 1000 1000, TimerFires 2500 2500])) = 3"
proof -
  have g: "trim ''goal'' \<noteq> []"
    by (simp add: trim_def whitespace_eval)
  have l: "length (messages (run (initialState 0) [SetInputValue ''goal'', ClickSend 1000 1000, TimerFires 2500 2500])) = 3"
    by (simp add: run_def initialState_def initialMessages_def handleSendMessage_accept g
        timeoutCallback_eq)
  have "(0::nat) < length (messages (initialState 0))"
    by (simp add: initialState_def initialMessages_def)
  with l messages_append_only [of "initialState 0" 0 0 "[]" "SetInputValue []"
      "[SetInputValue ''goal'', ClickSend 1000 1000, TimerFires 2500 2500]"]
  show ?thesis by blast
qed

text \<open>
  Claim C2, as stated, fails when submissions overlap: "a" is sent at 1000 ms and "b" at
  1800 ms, before the first timer fires at 2500 ms. Once both responses have arrived the
  conversation holds the greeting, the two user messages and then the two replies, which
  is not the greeting followed by two user/assistant pairs.
\<close>

theorem overlapping_submissions_counterexample:
  "timers (run (initialState 0)
      [SetInputValue ''a'', ClickSend 1000 1000, SetInputValue ''b'', ClickSend 1800 1800,
       TimerFires 2500 2500, TimerFires 3300 3300]) = []
   \<and> submissions (initialState 0)
      [SetInputValue ''a'', ClickSend 1000 1000, SetInputValue ''b'', ClickSend 1800 1800,
       TimerFires 2500 2500, TimerFires 3300 3300] = [''a'', ''b'']
   \<and> map isUser (messages (run (initialState 0)
      [SetInputValue ''a'', ClickSend 1000 1000, SetInputValue ''b'', ClickSend 1800 1800,
       TimerFires 2500 2500, TimerFires 3300 3300])) = [False, True, True, False, False]
   \<and> map shown (messages (run (initialState 0)
      [SetInputValue ''a'', ClickSend 1000 1000, SetInputValue ''b'', ClickSend 1800 1800,
       TimerFires 2500 2500, TimerFires 3300 3300]))
      \<noteq> (False, greeting, None, Undefined) # concat (map (\<lambda>u. [userEntry u, replyEntry u]) [''a'', ''b''])"
  by (simp add: run_def initialState_def initialMessages_def handleSendMessage_accept
      handleSendMessage_reject ab_nonblank timeoutCallback_eq shown_def userEntry_def replyEntry_def)

text \<open>
  Claim C2, amended. Starting from the initial conversation, after \<open>N\<close> non-empty
  submissions whose delayed responses have all arrived, the conversation has exactly
  \<open>2N + 1\<close> messages: the greeting first; then the \<open>N\<close> user messages in
  submission order and the \<open>N\<close> assistant replies to them in the same order, every
  reply after the user message it answers (in each prefix of the messages after the
  greeting there are at least as many user messages as replies). When no submission is
  made while a response is still pending, the messages after the greeting are \<open>N\<close>
  adjacent pairs of a user message and its reply.
\<close>

theorem conversation_after_submissions:
  assumes "timers (run (initialState loadTime) es) = []"
  shows "length (messages (initialState loadTime)) = 1
    \<and> length (messages (run (initialState loadTime) es))
      = 2 * length (submissions (initialState loadTime) es) + 1
    \<and> take 1 (messages (run (initialState loadTime) es)) = initialMessages loadTime
    \<and> map shown (filter isUser (messages (run (initialState loadTime) es)))
        = map userEntry (submissions (initialState loadTime) es)
    \<and> map shown (filter (\<lambda>m. \<not> isUser m) (tl (messages (run (initialState loadTime) es))))
        = map replyEntry (submissions (initialState loadTime) es)
    \<and> (\<forall>n. length (filter (\<lambda>m. \<not> isUser m) (take n (tl (messages (run (initialState loadTime) es)))))
           \<le> length (filter isUser (take n (tl (messages (run (initialState loadTime) es))))))
    \<and> (serial (initialState loadTime) es \<longrightarrow>
         map shown (messages (run (initialState loadTime) es))
           = (False, greeting, None, Undefined)
             # concat (map (\<lambda>u. [userEntry u, replyEntry u]) (submissions (initialState loadTime) es)))"
proof -
  let ?s = "initialState loadTime"
  let ?ms = "messages (run ?s es)"
  have init: "messages ?s = initialMessages loadTime" "timers ?s = []"
    by (simp_all add: initialState_def)
  have g: "initialMessages loadTime = [hd (initialMessages loadTime)]"
    "\<not> isUser (hd (initialMessages loadTime))"
    "shown (hd (initialMessages loadTime)) = (False, greeting, None, Undefined)"
    by (simp_all add: initialMessages_def shown_def)
  obtain new where new: "?ms = initialMessages loadTime @ new"
    using run_messages_prefix [of ?s es] by (auto simp: prefix_def init)
  then have tl: "tl ?ms = new" and tk: "take 1 ?ms = initialMessages loadTime"
    by (simp_all add: initialMessages_def)
  have 1: "length ?ms = 2 * length (submissions ?s es) + 1"
    using run_length [of ?s es] assms by (simp add: init initialMessages_def)
  have 3: "map shown (filter isUser ?ms) = map userEntry (submissions ?s es)"
    using run_users [of ?s es] by (simp add: init initialMessages_def)
  have "map shown (filter (\<lambda>m. \<not> isUser m) ?ms) = (False, greeting, None, Undefined) # map replyEntry (submissions ?s es)"
    using run_replies [of ?s es] assms by (simp add: init initialMessages_def shown_def)
  then have 4: "map shown (filter (\<lambda>m. \<not> isUser m) (tl ?ms)) = map replyEntry (submissions ?s es)"
    unfolding new tl by (simp add: initialMessages_def shown_def)
  have 5: "\<forall>n. length (filter (\<lambda>m. \<not> isUser m) (take n (tl ?ms)))
           \<le> length (filter isUser (take n (tl ?ms)))"
    by (rule run_balanced) (simp_all add: init initialMessages_def)
  have 6: "serial ?s es \<longrightarrow>
         map shown ?ms = (False, greeting, None, Undefined)
             # concat (map (\<lambda>u. [userEntry u, replyEntry u]) (submissions ?s es))"
  proof
    assume "serial ?s es"
    from run_serial [OF this] assms show "map shown ?ms = (False, greeting, None, Undefined)
             # concat (map (\<lambda>u. [userEntry u, replyEntry u]) (submissions ?s es))"
      by (simp add: init initialMessages_def shown_def)
  qed
  have 0: "length (messages ?s) = 1"
    by (simp add: init initialMessages_def)
  from 0 1 tk 3 4 5 6 show ?thesis by blast
qed

theorem conversation_after_submissions_witness:
  "timers (run (initialState 0)
      [SetInputValue ''Am I on track for retirement?'', ClickSend 1000 1000,
       TimerFires 2500 2500, SetInputValue ''   '', ClickSend 3000 3000,
       SetInputValue ''asdf123'', KeyPress ''Enter'' False 4000 4000, TimerFires 5500 5500]) = []
   \<and> serial (initialState 0)
      [SetInputValue ''Am I on track for retirement?'', ClickSend 1000 1000,
       TimerFires 2500 2500, SetInputValue ''   '', ClickSend 3000 3000,
       SetInputValue ''asdf123'', KeyPress ''Enter'' False 4000 4000, TimerFires 5500 5500]
   \<and> length (messages (run (initialState 0)
      [SetInputValue ''Am I on track for retirement?'', ClickSend 1000 1000,
       TimerFires 2500 2500, SetInputValue ''   '', ClickSend 3000 3000,
       SetInputValue ''asdf123'', KeyPress ''Enter'' False 4000 4000, TimerFires 5500 5500])) = 5
   \<and> map shown (messages (run (initialState 0)
      [SetInputValue ''Am I on track for retirement?'', ClickSend 1000 1000,
       TimerFires 2500 2500, SetInputValue ''   '', ClickSend 3000 3000,
       SetInputValue ''asdf123'', KeyPress ''Enter'' False 4000 4000, TimerFires 5500 5500]))
      = [(False, greeting, None, Undefined),
         userEntry ''Am I on track for retirement?'', replyEntry ''Am I on track for retirement?'',
         userEntry ''asdf123'', replyEntry ''asdf123'']"
proof -
  let ?es = "[SetInputValue ''Am I on track for retirement?'', ClickSend 1000 1000,
       TimerFires 2500 2500, SetInputValue ''   '', ClickSend 3000 3000,
       SetInputValue ''asdf123'', KeyPress ''Enter'' False 4000 4000, TimerFires 5500 5500]"
  have t: "timers (run (initialState 0) ?es) = []"
    by (simp add: run_def initialState_def handleSendMessage_accept handleSendMessage_reject
        handleKeyPress_def trim_examples timeoutCallback_eq)
  have s: "serial (initialState 0) ?es"
    by (simp add: initialState_def handleSendMessage_accept handleSendMessage_reject
        handleKeyPress_def trim_examples timeoutCallback_eq)
  have n: "submissions (initialState 0) ?es = [''Am I on track for retirement?'', ''asdf123'']"
    by (simp add: initialState_def handleSendMessage_accept handleSendMessage_reject
        handleKeyPress_def trim_examples timeoutCallback_eq)
  from conversation_after_submissions [OF t] s t show ?thesis
    unfolding n by simp
qed

end
